theory Spec2Isabelle
  imports Main "HOL-Library.Word"
begin

section \<open>The byte-range streaming core of \<open>services/file.service.go\<close>\<close>

text \<open>
  The development embeds \<open>rangedParts\<close>, \<open>chunk\<close>, \<open>streamFilePart\<close> and
  \<open>GetFileStream\<close> of \<open>services/file.service.go\<close>.

  Conventions.
  \<^item> Go's \<open>int64\<close> values are modelled as \<open>int\<close>. The quantities are file sizes and
    offsets; no claim depends on wrap-around at \<open>2^63\<close>.
  \<^item> The source computes \<open>math.Ceil(float64(a)/float64(b))\<close> and
    \<open>math.Floor(float64(a)/float64(b))\<close>. For \<open>|a|, |b| < 2^53\<close> and \<open>b \<noteq> 0\<close> the
    rounded quotient lies on the same side of every integer as the exact one, so the
    float expression equals the exact ceiling (floor) of \<open>a/b\<close>; that is what
    \<open>ceil_div\<close> and \<open>div\<close> compute below. Division by a zero float is kept apart
    as an error value.
  \<^item> A Go panic is a value of type \<open>panic\<close>.
  \<^item> A Go slice is a value of type \<open>slice\<close>: its \<open>len\<close> elements and the rest of its
    backing array up to \<open>cap\<close>. An index expression is checked against \<open>len\<close>, the
    upper bound of a slice expression against \<open>cap\<close>.
\<close>

subsection \<open>Go primitives\<close>

type_synonym byte = "8 word"

datatype panic =
    IndexOutOfRange        \<comment> \<open>\<open>xs[i]\<close> with \<open>i\<close> outside \<open>0..len-1\<close>\<close>
  | SliceBoundsOutOfRange  \<comment> \<open>\<open>xs[lo:hi]\<close> with \<open>lo > hi\<close> or \<open>hi\<close> beyond the capacity\<close>
  | IntegerDivideByZero    \<comment> \<open>\<open>a % 0\<close>\<close>
  | FloatDivideByZero      \<comment> \<open>\<open>int64(x/0.0)\<close>: implementation-defined in Go, not modelled further\<close>

text \<open>
  A slice \<open>s\<close>: \<open>elems s\<close> are its \<open>len(s)\<close> elements, \<open>spare s\<close> is what its backing
  array holds beyond them, so that \<open>cap(s)\<close> is the length of both together. The
  \<open>nil\<close> slice has neither.
\<close>

datatype 'a slice = Slice (elems: "'a list") (spare: "'a list")

definition go_len :: "'a slice \<Rightarrow> int" where
  "go_len s = int (length (elems s))"

definition go_cap :: "'a slice \<Rightarrow> int" where
  "go_cap s = int (length (elems s) + length (spare s))"

text \<open>
  \<open>s[lo:hi]\<close> panics unless \<open>0 \<le> lo \<le> hi \<le> cap(s)\<close>; the result shares the backing
  array, so for \<open>hi > len(s)\<close> it shows elements beyond those of \<open>s\<close>. \<open>s[lo:]\<close> is
  \<open>s[lo:len(s)]\<close> and \<open>s[:hi]\<close> is \<open>s[0:hi]\<close>.
\<close>

definition go_slice :: "'a slice \<Rightarrow> int \<Rightarrow> int \<Rightarrow> panic + 'a slice" where
  "go_slice s lo hi =
     (let array = elems s @ spare s in
      if 0 \<le> lo \<and> lo \<le> hi \<and> hi \<le> go_cap s
      then Inr (Slice (take (nat (hi - lo)) (drop (nat lo) array)) (drop (nat hi) array))
      else Inl SliceBoundsOutOfRange)"

text \<open>Go's \<open>%\<close> on integers truncates towards zero: the result has the sign of the dividend.\<close>

definition go_rem :: "int \<Rightarrow> int \<Rightarrow> int" where
  "go_rem a b = sgn a * (\<bar>a\<bar> mod \<bar>b\<bar>)"

text \<open>\<open>math.Ceil(float64(a)/float64(b))\<close> for \<open>b \<noteq> 0\<close>.\<close>

definition ceil_div :: "int \<Rightarrow> int \<Rightarrow> int" where
  "ceil_div a b = - ((- a) div b)"

text \<open>
  Modelled from the spec: \<open>utils.Max\<close> is not part of the source under study; the spec
  writes \<open>max(ceil(start/chunkSize) - 1, 0)\<close>, the larger of its two arguments.
\<close>

definition utils_Max :: "int \<Rightarrow> int \<Rightarrow> int" where
  "utils_Max a b = (if a < b then b else a)"

subsection \<open>Parts and the range slicer\<close>

text \<open>
  \<open>types.Part\<close> as \<open>getParts\<close> builds it: \<open>Location\<close> identifies the remote document,
  \<open>Start = 0\<close>, \<open>End = Size - 1\<close>.
\<close>

record Part =
  Location :: nat
  Start :: int
  End :: int
  Size :: int

definition mkPart :: "nat \<Rightarrow> int \<Rightarrow> Part" where
  "mkPart loc sz = \<lparr>Location = loc, Start = 0, End = sz - 1, Size = sz\<rparr>"

text \<open>
  \<open>rangedParts\<close>, statement by statement: \<open>parts[0]\<close> panics on the empty slice, the
  slice expression panics when its bounds are out of order or beyond the capacity, and
  \<open>partsToDownload[0]\<close> panics when the slice is empty. The two assignments change
  elements of the result, whose backing array is that of \<open>parts\<close>.
\<close>

definition rangedParts :: "Part slice \<Rightarrow> int \<Rightarrow> int \<Rightarrow> panic + Part slice" where
  "rangedParts parts start end' =
     (case elems parts of
        [] \<Rightarrow> Inl IndexOutOfRange
      | p0 # _ \<Rightarrow>
          (let chunkSize = Size p0 in
           if chunkSize = 0 then Inl FloatDivideByZero
           else
             let startPartNumber = utils_Max (ceil_div start chunkSize - 1) 0;
                 endPartNumber = ceil_div end' chunkSize
             in case go_slice parts startPartNumber endPartNumber of
                  Inl p \<Rightarrow> Inl p
                | Inr partsToDownload \<Rightarrow>
                    if elems partsToDownload = [] then Inl IndexOutOfRange
                    else
                      let ps = elems partsToDownload;
                          ps1 = ps[0 := (ps ! 0)\<lparr>Start := go_rem start chunkSize\<rparr>];
                          n = length ps1 - 1;
                          ps2 = ps1[n := (ps1 ! n)\<lparr>End := go_rem end' chunkSize\<rparr>]
                      in Inr (Slice ps2 (spare partsToDownload))))"

subsection \<open>The remote chunk client\<close>

text \<open>
  The answer of \<open>UploadGetFile\<close>: an error, an \<open>*tg.UploadFile\<close> carrying a byte
  slice (of whatever capacity the client library gave it), or another variant of the
  response class.
\<close>

datatype UploadFileClass = UploadFile "byte slice" | UploadFileCDNRedirect

type_synonym api = "nat \<Rightarrow> int \<Rightarrow> int \<Rightarrow> string + UploadFileClass"

definition chunk :: "api \<Rightarrow> Part \<Rightarrow> int \<Rightarrow> int \<Rightarrow> string + byte slice" where
  "chunk tgClient part offset limit =
     (case tgClient (Location part) offset limit of
        Inl err \<Rightarrow> Inl err
      | Inr (UploadFile bs) \<Rightarrow> Inr bs
      | Inr UploadFileCDNRedirect \<Rightarrow> Inl ''unexpected type'')"

subsection \<open>The part streamer\<close>

text \<open>
  What the producer does, in order: a call of \<open>chunk\<close> at (location, offset, limit), or
  a \<open>writer.Write\<close> of a block. The result of \<open>Write\<close> is discarded by the source, so
  the producer's control flow does not depend on it.
\<close>

datatype event = Fetch nat int int | Write "byte list"

text \<open>
  \<open>r, _ := chunk(...)\<close> drops the error, and \<open>r\<close> is \<open>nil\<close> then: that is
  \<open>chunk_bytes\<close>. \<open>streamLoop\<close> is the \<open>for\<close> loop of \<open>streamFilePart\<close>; its result
  is the events performed and the panic that ended them, if any.
\<close>

definition chunk_bytes :: "api \<Rightarrow> Part \<Rightarrow> int \<Rightarrow> int \<Rightarrow> byte slice" where
  "chunk_bytes tgClient part offset limit =
     (case chunk tgClient part offset limit of Inl _ \<Rightarrow> Slice [] [] | Inr bs \<Rightarrow> bs)"

function streamLoop ::
  "api \<Rightarrow> Part \<Rightarrow> int \<Rightarrow> int \<Rightarrow> int \<Rightarrow> int \<Rightarrow> int \<Rightarrow> int \<Rightarrow> event list \<times> panic option" where
  "streamLoop tgClient part chunkSize firstPartCut lastPartCut partCount offset currentPart =
     (let r = chunk_bytes tgClient part offset chunkSize in
      if go_len r = 0 then ([Fetch (Location part) offset chunkSize], None)
      else
        case (if partCount = 1 then go_slice r firstPartCut lastPartCut
              else if currentPart = 1 then go_slice r firstPartCut (go_len r)
              else if currentPart = partCount then go_slice r 0 lastPartCut
              else Inr r) of
          Inl p \<Rightarrow> ([Fetch (Location part) offset chunkSize], Some p)
        | Inr r' \<Rightarrow>
            if currentPart + 1 > partCount
            then ([Fetch (Location part) offset chunkSize, Write (elems r')], None)
            else
              (case streamLoop tgClient part chunkSize firstPartCut lastPartCut partCount
                      (offset + chunkSize) (currentPart + 1) of
                 (evs, res) \<Rightarrow>
                   (Fetch (Location part) offset chunkSize # Write (elems r') # evs, res)))"
  by pat_completeness auto
termination
  by (relation "measure (\<lambda>(tgClient, part, chunkSize, firstPartCut, lastPartCut, partCount,
                            offset, currentPart). nat (partCount - currentPart))") auto

declare streamLoop.simps [simp del]

definition streamFilePart ::
  "api \<Rightarrow> Part \<Rightarrow> int \<Rightarrow> int \<Rightarrow> int \<Rightarrow> event list \<times> panic option" where
  "streamFilePart tgClient part start end' chunkSize =
     (if chunkSize = 0 then ([], Some IntegerDivideByZero)
      else
        let offset = start - go_rem start chunkSize;
            firstPartCut = start - offset;
            lastPartCut = go_rem end' chunkSize + 1;
            partCount = ceil_div (end' + 1) chunkSize - offset div chunkSize
        in streamLoop tgClient part chunkSize firstPartCut lastPartCut partCount offset 1)"

text \<open>Projections of a run: the offsets fetched and the bytes written.\<close>

fun fetches :: "event list \<Rightarrow> (nat \<times> int \<times> int) list" where
  "fetches [] = []"
| "fetches (Fetch l off lim # evs) = (l, off, lim) # fetches evs"
| "fetches (Write r # evs) = fetches evs"

fun written :: "event list \<Rightarrow> byte list" where
  "written [] = []"
| "written (Fetch l off lim # evs) = written evs"
| "written (Write r # evs) = r @ written evs"

subsection \<open>The part streamer as the spec describes it\<close>

text \<open>
  Section 4.2 of the spec, in its own words, for comparison with \<open>streamFilePart\<close>:
  the number of fetches is \<open>ceil((localEnd+1)/U) - floor(localStart/U)\<close>; the \<open>k\<close>-th
  fetch is at \<open>floor(localStart/U)\<cdot>U + k\<cdot>U\<close>; the first block drops the bytes before
  \<open>localStart\<close>, the last block drops the bytes after \<open>localEnd\<close>, and a block that is
  both first and last is trimmed on both sides.
\<close>

definition spec_partCount :: "int \<Rightarrow> int \<Rightarrow> int \<Rightarrow> int" where
  "spec_partCount localStart localEnd U = ceil_div (localEnd + 1) U - localStart div U"

definition spec_offset :: "int \<Rightarrow> int \<Rightarrow> nat \<Rightarrow> int" where
  "spec_offset localStart U k = (localStart div U) * U + int k * U"

definition spec_trim :: "int \<Rightarrow> int \<Rightarrow> int \<Rightarrow> nat \<Rightarrow> byte list \<Rightarrow> byte list" where
  "spec_trim localStart localEnd U k r =
     (let r1 = (if int k = spec_partCount localStart localEnd U - 1
                then take (nat (localEnd mod U + 1)) r else r)
      in if k = 0 then drop (nat (localStart mod U)) r1 else r1)"

text \<open>
  The block the remote returns for the \<open>k\<close>-th fetch of a part stream, and the capacity
  of the slice that holds it.
\<close>

definition block :: "api \<Rightarrow> Part \<Rightarrow> int \<Rightarrow> int \<Rightarrow> nat \<Rightarrow> byte list" where
  "block tgClient part localStart U k =
     elems (chunk_bytes tgClient part (spec_offset localStart U k) U)"


text \<open>
  A block is long enough for its trims: it is not empty, a first block reaches
  \<open>localStart\<close>, a last block reaches \<open>localEnd\<close>.
\<close>

definition suffices :: "int \<Rightarrow> int \<Rightarrow> int \<Rightarrow> nat \<Rightarrow> byte list \<Rightarrow> bool" where
  "suffices localStart localEnd U k r \<longleftrightarrow>
     r \<noteq> [] \<and>
     (k = 0 \<longrightarrow> localStart mod U \<le> int (length r)) \<and>
     (int k = spec_partCount localStart localEnd U - 1 \<longrightarrow>
        localEnd mod U + 1 \<le> int (length r))"

text \<open>The events of the \<open>k\<close>-th round of the loop: the fetch and the write of the trimmed block.\<close>

definition round_events :: "api \<Rightarrow> Part \<Rightarrow> int \<Rightarrow> int \<Rightarrow> int \<Rightarrow> nat \<Rightarrow> event list" where
  "round_events tgClient part localStart localEnd U k =
     [Fetch (Location part) (spec_offset localStart U k) U,
      Write (spec_trim localStart localEnd U k (block tgClient part localStart U k))]"

subsection \<open>The producer and the pipe\<close>

text \<open>
  The goroutine of \<open>GetFileStream\<close>: \<open>streamFilePart\<close> over the selected parts, in
  order, with the transfer unit \<open>1024*1024\<close>. A panic ends the run.
\<close>

fun producer :: "api \<Rightarrow> Part list \<Rightarrow> event list \<times> panic option" where
  "producer tgClient [] = ([], None)"
| "producer tgClient (part # parts) =
     (case streamFilePart tgClient part (Start part) (End part) (1024 * 1024) of
        (evs, Some p) \<Rightarrow> (evs, Some p)
      | (evs, None) \<Rightarrow>
          (case producer tgClient parts of (evs', res) \<Rightarrow> (evs @ evs', res)))"

text \<open>
  \<open>io.Pipe\<close> is synchronous: a \<open>Write\<close> returns once the reader has taken all its
  bytes (an empty \<open>Write\<close> still waits for one \<open>Read\<close>). The only reader is
  \<open>io.CopyN(w, ir, contentLength)\<close>, which stops reading after \<open>contentLength\<close> bytes;
  the read end is never closed. \<open>pipe n evs\<close> runs the producer's events against a
  reader that still wants \<open>n\<close> bytes: the events the producer gets to start, the bytes
  the reader receives, and whether the producer reaches the end of its events. A
  \<open>Write\<close> the reader does not drain never returns, and nothing after it happens.
\<close>

fun pipe :: "nat \<Rightarrow> event list \<Rightarrow> event list \<times> byte list \<times> bool" where
  "pipe n [] = ([], [], True)"
| "pipe n (Fetch l off lim # evs) =
     (case pipe n evs of (started, bs, fin) \<Rightarrow> (Fetch l off lim # started, bs, fin))"
| "pipe n (Write r # evs) =
     (if n = 0 \<or> n < length r then ([Write r], take n r, False)
      else case pipe (n - length r) evs of
             (started, bs, fin) \<Rightarrow> (Write r # started, r @ bs, fin))"

subsection \<open>The response writer\<close>

text \<open>
  \<open>c.Writer\<close>: gin's response writer keeps the status code and the header map until
  the first body byte is written, so \<open>WriteHeader\<close> and \<open>Header().Set\<close> before that
  point only update them. The status of a fresh writer is 200.
\<close>

record ResponseWriter =
  status :: int
  header :: "string \<rightharpoonup> string"
  body :: "byte list"

definition new_writer :: ResponseWriter where
  "new_writer = \<lparr>status = 200, header = Map.empty, body = []\<rparr>"

definition Header_Set :: "ResponseWriter \<Rightarrow> string \<Rightarrow> string \<Rightarrow> ResponseWriter" where
  "Header_Set w k v = w\<lparr>header := (header w)(k \<mapsto> v)\<rparr>"

definition WriteHeader :: "ResponseWriter \<Rightarrow> int \<Rightarrow> ResponseWriter" where
  "WriteHeader w code = w\<lparr>status := code\<rparr>"

definition bytes_of :: "string \<Rightarrow> byte list" where
  "bytes_of s = map of_char s"

text \<open>
  \<open>http.Error\<close>: a plain-text content type, the \<open>nosniff\<close> option, the status code and
  the message followed by a newline as the body.
\<close>

definition http_Error :: "ResponseWriter \<Rightarrow> string \<Rightarrow> int \<Rightarrow> ResponseWriter" where
  "http_Error w err code =
     (let w1 = Header_Set w ''Content-Type'' ''text/plain; charset=utf-8'';
          w2 = Header_Set w1 ''X-Content-Type-Options'' ''nosniff'';
          w3 = WriteHeader w2 code
      in w3\<lparr>body := body w3 @ bytes_of (err @ [CHR 0x0A])\<rparr>)"

text \<open>\<open>strconv.FormatInt(i, 10)\<close> and the \<open>%d\<close> verb of \<open>fmt.Sprintf\<close>.\<close>

fun digits :: "nat \<Rightarrow> string" where
  "digits n =
     (if n < 10 then [''0123456789'' ! n]
      else digits (n div 10) @ [''0123456789'' ! (n mod 10)])"

declare digits.simps [simp del]

definition FormatInt :: "int \<Rightarrow> string" where
  "FormatInt i = (if i < 0 then CHR ''-'' # digits (nat (- i)) else digits (nat i))"

subsection \<open>The stream orchestrator\<close>

text \<open>
  What \<open>GetFileStream\<close> reads from its collaborators, none of which is part of the
  source under study: the configuration flag, the error of \<open>utils.GetAuthClient\<close> (if
  any), the cached answer of \<open>GetFileByID\<close>, the range parser, the answer of
  \<open>getParts\<close>'s remote lookups, and the remote chunk API.
\<close>

record FileOutFull =
  Name :: string
  MimeType :: string
  FileSize :: int

record env =
  MultiClient :: bool
  GetAuthClient :: "string option"
  GetFileByID :: "string + FileOutFull"
  Parse :: "int \<Rightarrow> string \<Rightarrow> string + (int \<times> int) list"
  getParts :: "string + Part slice"
  UploadGetFile :: api

record request =
  Method :: string
  Range :: string

text \<open>
  The observable result of one request: the response writer, the client's \<open>Workload\<close>
  counter afterwards, the events the producer started, and the panic that stopped the
  handler or the producer, if any.
\<close>

record result =
  writer :: ResponseWriter
  Workload :: int
  events :: "event list"
  crashed :: "panic option"

definition returned :: "ResponseWriter \<Rightarrow> int \<Rightarrow> result" where
  "returned w workload = \<lparr>writer = w, Workload = workload, events = [], crashed = None\<rparr>"

text \<open>
  \<open>GetFileStream\<close>. The \<open>defer\<close> that decrements \<open>Workload\<close> is the last statement
  of the function: it is registered, and runs, only when control reaches it. A panic of
  \<open>rangedParts\<close> leaves the handler before that, and so does every early \<open>return\<close>.
  A panic of the producer goroutine stops the process; the handler has returned by then
  exactly when \<open>io.CopyN\<close> had received all it asked for (or was never called).
\<close>

definition GetFileStream :: "env \<Rightarrow> request \<Rightarrow> int \<Rightarrow> result" where
  "GetFileStream e r workload0 =
     (let w = new_writer;
          workload = (if MultiClient e then workload0 + 1 else workload0) in
      case (if MultiClient e then None else GetAuthClient e) of
        Some err \<Rightarrow> returned (http_Error w err 500) workload
      | None \<Rightarrow>
      (case GetFileByID e of
         Inl err \<Rightarrow> returned (http_Error w err 400) workload
       | Inr file \<Rightarrow>
       (let w = Header_Set w ''Accept-Ranges'' ''bytes'' in
        case (if Range r = [] then Inr (Inr (WriteHeader w 200, 0, FileSize file - 1))
              else case Parse e (FileSize file) (Range r) of
                     Inl err \<Rightarrow> Inl err
                   | Inr [] \<Rightarrow> Inr (Inl IndexOutOfRange)
                   | Inr ((start, end') # _) \<Rightarrow>
                       Inr (Inr (WriteHeader
                                   (Header_Set w ''Content-Range''
                                      (''bytes '' @ FormatInt start @ ''-'' @ FormatInt end'
                                        @ ''/'' @ FormatInt (FileSize file)))
                                   206,
                                 start, end'))) of
          Inl err \<Rightarrow> returned (http_Error w err 400) workload
        | Inr (Inl p) \<Rightarrow> (returned w workload)\<lparr>crashed := Some p\<rparr>
        | Inr (Inr (w, start, end')) \<Rightarrow>
        (let contentLength = end' - start + 1;
             w = Header_Set w ''Content-Type'' (MimeType file);
             w = Header_Set w ''Content-Length'' (FormatInt contentLength);
             w = Header_Set w ''Content-Disposition''
                   (''inline; filename=\"'' @ Name file @ ''\"'') in
         case getParts e of
           Inl err \<Rightarrow> returned (http_Error w err 400) workload
         | Inr parts \<Rightarrow>
         (case rangedParts parts start end' of
            Inl p \<Rightarrow> (returned w workload)\<lparr>crashed := Some p\<rparr>
          | Inr parts \<Rightarrow>
          (case producer (UploadGetFile e) (elems parts) of
             (evs, res) \<Rightarrow>
             (let demand = (if Method r \<noteq> ''HEAD'' then nat contentLength else 0) in
              case pipe demand evs of
                (started, bs, fin) \<Rightarrow>
                (let w = w\<lparr>body := body w @ bs\<rparr>;
                     crash = (if fin then res else None);
                     handler_returns = (crash = None \<or> length bs = demand)
                 in \<lparr>writer = w,
                     Workload = (if handler_returns \<and> MultiClient e
                                 then workload - 1 else workload),
                     events = started,
                     crashed = crash\<rparr>))))))))"

subsection \<open>A remote that answers every fetch with the requested bytes\<close>

text \<open>
  \<open>store loc\<close> is the content of the remote document \<open>loc\<close>. \<open>serve\<close> answers a
  fetch at (location, offset, limit) with the bytes of the document from \<open>offset\<close>, at
  most \<open>limit\<close> of them: short at the end of the document, empty beyond it. The slice
  has no spare capacity.
\<close>

definition serve :: "(nat \<Rightarrow> byte list) \<Rightarrow> api" where
  "serve store loc offset limit =
     Inr (UploadFile (Slice (take (nat limit) (drop (nat offset) (store loc))) []))"

subsection \<open>Concrete files and remotes\<close>

text \<open>
  A ten-byte file stored as three documents of 4, 4 and 2 bytes (chunk size 4), the
  byte at logical position \<open>i\<close> having the value \<open>i\<close>.
\<close>

definition ten_bytes :: "nat \<Rightarrow> byte list" where
  "ten_bytes loc =
     (if loc = 0 then [0, 1, 2, 3]
      else if loc = 1 then [4, 5, 6, 7]
      else if loc = 2 then [8, 9]
      else [])"

definition three_parts :: "Part slice" where
  "three_parts = Slice [mkPart 0 4, mkPart 1 4, mkPart 2 2] []"

text \<open>The part sizes of the spec's example: 1000, 1000 and 500 bytes.\<close>

definition spec_parts :: "Part slice" where
  "spec_parts = Slice [mkPart 0 1000, mkPart 1 1000, mkPart 2 500] []"

text \<open>
  The collaborators of a request for the ten-byte file in multi-client mode; the range
  parser answers every header with the single range \<open>[4, 5]\<close>.
\<close>

definition ten_file :: FileOutFull where
  "ten_file = \<lparr>Name = ''a.bin'', MimeType = ''application/octet-stream'', FileSize = 10\<rparr>"

definition ten_env :: env where
  "ten_env =
     \<lparr>MultiClient = True,
      GetAuthClient = None,
      GetFileByID = Inr ten_file,
      Parse = (\<lambda>size h. Inr [(4, 5)]),
      getParts = Inr three_parts,
      UploadGetFile = serve ten_bytes\<rparr>"

text \<open>The same, for a file id the metadata store does not know.\<close>

definition unknown_env :: env where
  "unknown_env = ten_env\<lparr>GetFileByID := Inl ''record not found''\<rparr>"

definition GET :: "string \<Rightarrow> request" where
  "GET rangeHeader = \<lparr>Method = ''GET'', Range = rangeHeader\<rparr>"

definition HEAD :: "string \<Rightarrow> request" where
  "HEAD rangeHeader = \<lparr>Method = ''HEAD'', Range = rangeHeader\<rparr>"

text \<open>A file whose metadata lists no part and whose size is 0.\<close>

definition empty_file :: FileOutFull where
  "empty_file = \<lparr>Name = ''empty.bin'', MimeType = ''application/octet-stream'', FileSize = 0\<rparr>"

definition empty_env :: env where
  "empty_env = ten_env\<lparr>GetFileByID := Inr empty_file, getParts := Inr (Slice [] [])\<rparr>"

text \<open>A twelve-byte document, the byte at position \<open>i\<close> having the value \<open>i\<close>.\<close>

definition twelve_bytes :: "nat \<Rightarrow> byte list" where
  "twelve_bytes loc = [0, 1, 2, 3, 4, 5, 6, 7, 8, 9, 10, 11]"

text \<open>A remote that answers every fetch with two bytes, whatever the limit.\<close>

definition two_byte_remote :: api where
  "two_byte_remote loc offset limit = Inr (UploadFile (Slice [7, 7] []))"


text \<open>A remote that answers the fetch at offset 0 and fails on every other one.\<close>

definition flaky_remote :: api where
  "flaky_remote loc offset limit =
     (if offset = 0 then Inr (UploadFile (Slice [0, 1, 2, 3] [])) else Inl ''rpc error'')"


text \<open>
  A nine-byte file stored as three documents of 4, 4 and 1 bytes (chunk size 4), the
  byte at logical position \<open>i\<close> having the value \<open>i\<close>, and the collaborators of a
  request for it.
\<close>

definition nine_bytes :: "nat \<Rightarrow> byte list" where
  "nine_bytes loc =
     (if loc = 0 then [0, 1, 2, 3]
      else if loc = 1 then [4, 5, 6, 7]
      else if loc = 2 then [8]
      else [])"

definition nine_file :: FileOutFull where
  "nine_file = \<lparr>Name = ''b.bin'', MimeType = ''application/octet-stream'', FileSize = 9\<rparr>"

definition nine_env :: env where
  "nine_env =
     ten_env\<lparr>GetFileByID := Inr nine_file,
             getParts := Inr (Slice [mkPart 0 4, mkPart 1 4, mkPart 2 1] []),
             UploadGetFile := serve nine_bytes\<rparr>"

section \<open>Evaluation rules\<close>

lemmas go_defs = go_slice_def go_len_def go_cap_def go_rem_def ceil_div_def utils_Max_def

lemmas slicer_defs = rangedParts_def mkPart_def go_defs

lemmas streamer_defs = streamFilePart_def streamLoop.simps chunk_bytes_def chunk_def go_defs

lemmas writer_defs = new_writer_def Header_Set_def WriteHeader_def http_Error_def
  returned_def

section \<open>Slice expressions\<close>

text \<open>Within the length of the slice, a slice expression shows its elements only.\<close>

lemma go_slice_drop:
  "0 \<le> lo \<Longrightarrow> lo \<le> go_len s \<Longrightarrow>
   go_slice s lo (go_len s) = Inr (Slice (drop (nat lo) (elems s)) (spare s))"
  by (simp add: go_slice_def go_len_def go_cap_def)

lemma go_slice_take:
  "0 \<le> hi \<Longrightarrow> hi \<le> go_len s \<Longrightarrow>
   go_slice s 0 hi = Inr (Slice (take (nat hi) (elems s)) (drop (nat hi) (elems s) @ spare s))"
  by (simp add: go_slice_def go_len_def go_cap_def)

lemma go_slice_both:
  "0 \<le> lo \<Longrightarrow> lo \<le> hi \<Longrightarrow> hi \<le> go_len s \<Longrightarrow>
   go_slice s lo hi =
     Inr (Slice (drop (nat lo) (take (nat hi) (elems s))) (drop (nat hi) (elems s) @ spare s))"
  by (simp add: go_slice_def go_len_def go_cap_def drop_take nat_diff_distrib)



lemma go_len_0: "go_len s = 0 \<longleftrightarrow> elems s = []"
  by (simp add: go_len_def)

section \<open>The loop of the part streamer, round by round\<close>

text \<open>
  One round that is neither stopped by an empty block nor the last expected one: the
  block is written (without its first \<open>firstPartCut\<close> bytes in round 1) and the loop
  goes on at the next offset.
\<close>

lemma streamLoop_round:
  assumes "elems (chunk_bytes api part offset U) \<noteq> []" "currentPart + 1 \<le> n" "1 \<le> currentPart"
    "currentPart = 1 \<longrightarrow> 0 \<le> fc \<and> fc \<le> int (length (elems (chunk_bytes api part offset U)))"
  shows "streamLoop api part U fc lc n offset currentPart =
     (case streamLoop api part U fc lc n (offset + U) (currentPart + 1) of
        (evs, res) \<Rightarrow>
          (Fetch (Location part) offset U #
           Write (if currentPart = 1 then drop (nat fc) (elems (chunk_bytes api part offset U))
                  else elems (chunk_bytes api part offset U)) # evs, res))"
proof -
  let ?r = "chunk_bytes api part offset U"
  have len: "go_len ?r \<noteq> 0" using assms(1) by (simp add: go_len_0)
  have first: "go_slice ?r fc (go_len ?r) = Inr (Slice (drop (nat fc) (elems ?r)) (spare ?r))"
    if "currentPart = 1"
    using that assms(4) by (intro go_slice_drop) (auto simp: go_len_def)
  show ?thesis
  proof (cases "currentPart = 1")
    case True
    then show ?thesis
      using assms(2) len first
      by (subst streamLoop.simps) (simp add: Let_def split: prod.splits)
  next
    case False
    then show ?thesis
      using assms(2,3) len
      by (subst streamLoop.simps) (simp add: Let_def split: prod.splits)
  qed
qed

text \<open>Rounds \<open>i\<close> to \<open>k - 1\<close> (counted from 0), none of them the last expected one.\<close>

lemma streamLoop_steps:
  assumes "i \<le> k" "int k < n"
    and ok: "\<And>j. i \<le> j \<Longrightarrow> j < k \<Longrightarrow>
          elems (chunk_bytes api part (off0 + int j * U) U) \<noteq> [] \<and>
          (j = 0 \<longrightarrow> 0 \<le> fc \<and> fc \<le> int (length (elems (chunk_bytes api part (off0 + int j * U) U))))"
  shows "streamLoop api part U fc lc n (off0 + int i * U) (int i + 1) =
     (case streamLoop api part U fc lc n (off0 + int k * U) (int k + 1) of
        (evs, res) \<Rightarrow>
          (concat (map (\<lambda>j. [Fetch (Location part) (off0 + int j * U) U,
                              Write (if j = 0
                                     then drop (nat fc) (elems (chunk_bytes api part (off0 + int j * U) U))
                                     else elems (chunk_bytes api part (off0 + int j * U) U))])
                     [i..<k]) @ evs, res))"
  using assms
proof (induction k rule: dec_induct)
  case base
  show ?case by (simp split: prod.splits)
next
  case (step k)
  have ih: "streamLoop api part U fc lc n (off0 + int i * U) (int i + 1) =
     (case streamLoop api part U fc lc n (off0 + int k * U) (int k + 1) of
        (evs, res) \<Rightarrow>
          (concat (map (\<lambda>j. [Fetch (Location part) (off0 + int j * U) U,
                              Write (if j = 0
                                     then drop (nat fc) (elems (chunk_bytes api part (off0 + int j * U) U))
                                     else elems (chunk_bytes api part (off0 + int j * U) U))])
                     [i..<k]) @ evs, res))"
    using step by auto
  have okk: "elems (chunk_bytes api part (off0 + int k * U) U) \<noteq> [] \<and>
          (k = 0 \<longrightarrow> 0 \<le> fc \<and> fc \<le> int (length (elems (chunk_bytes api part (off0 + int k * U) U))))"
    using step.prems(2)[of k] step.hyps by simp
  have rnd: "streamLoop api part U fc lc n (off0 + int k * U) (int k + 1) =
     (case streamLoop api part U fc lc n (off0 + int k * U + U) (int k + 1 + 1) of
        (evs, res) \<Rightarrow>
          (Fetch (Location part) (off0 + int k * U) U #
           Write (if int k + 1 = 1 then drop (nat fc) (elems (chunk_bytes api part (off0 + int k * U) U))
                  else elems (chunk_bytes api part (off0 + int k * U) U)) # evs, res))"
    by (rule streamLoop_round) (use okk step.prems(1) in auto)
  have off: "off0 + int k * U + U = off0 + int (Suc k) * U"
    by (simp add: algebra_simps)
  show ?case
    unfolding ih rnd off using step.hyps
    by (simp split: prod.splits)
qed

text \<open>A round whose block is empty ends the loop, whichever round it is.\<close>

lemma streamLoop_empty:
  "elems (chunk_bytes api part offset U) = [] \<Longrightarrow>
   streamLoop api part U fc lc n offset currentPart = ([Fetch (Location part) offset U], None)"
  by (subst streamLoop.simps) (simp add: go_len_0)

text \<open>The last expected round, on a block that is not empty.\<close>

lemma streamLoop_last:
  assumes "elems (chunk_bytes api part offset U) \<noteq> []"
  shows "streamLoop api part U fc lc n offset n =
     (case (if n = 1 then go_slice (chunk_bytes api part offset U) fc lc
            else go_slice (chunk_bytes api part offset U) 0 lc) of
        Inl p \<Rightarrow> ([Fetch (Location part) offset U], Some p)
      | Inr r' \<Rightarrow> ([Fetch (Location part) offset U, Write (elems r')], None))"
  using assms
  by (subst streamLoop.simps) (auto simp: Let_def go_len_0 split: sum.splits)

section \<open>The arithmetic of the part streamer\<close>

text \<open>
  For a positive transfer unit the ceiling of \<open>(e+1)/U\<close> is one more than the floor of
  \<open>e/U\<close>, Go's \<open>%\<close> is \<open>mod\<close> on non-negative dividends, and so the source's
  \<open>offset\<close>, \<open>firstPartCut\<close>, \<open>lastPartCut\<close> and \<open>partCount\<close> are the spec's
  \<open>floor(localStart/U)\<cdot>U\<close>, \<open>localStart mod U\<close>, \<open>localEnd mod U + 1\<close> and
  \<open>ceil((localEnd+1)/U) - floor(localStart/U)\<close>.
\<close>

lemma ceil_div_succ: "0 < U \<Longrightarrow> ceil_div (e + 1) U = e div U + 1"
proof -
  assume U: "0 < U"
  have "(- (e + 1)) div U = - (e div U) - 1"
  proof (rule int_div_pos_eq[where r = "U - 1 - e mod U"]) 
    have "e = e div U * U + e mod U" by simp
    then show "- (e + 1) = U * (- (e div U) - 1) + (U - 1 - e mod U)"
      by (simp add: algebra_simps)
    show "0 \<le> U - 1 - e mod U" using U pos_mod_bound[of U e] by simp
    show "U - 1 - e mod U < U" using U pos_mod_sign[of U e] by linarith
  qed
  then show ?thesis by (simp add: ceil_div_def)
qed

lemma go_rem_nonneg: "0 \<le> a \<Longrightarrow> 0 < b \<Longrightarrow> go_rem a b = a mod b"
  by (cases "a = 0") (simp_all add: go_rem_def)

lemma spec_partCount_eq: "0 < U \<Longrightarrow> spec_partCount s e U = e div U - s div U + 1"
  by (simp add: spec_partCount_def ceil_div_succ)

lemma spec_partCount_pos: "0 < U \<Longrightarrow> s \<le> e \<Longrightarrow> 1 \<le> spec_partCount s e U"
  by (simp add: spec_partCount_eq zdiv_mono1)

lemma streamFilePart_loop:
  assumes "0 \<le> start" "0 \<le> end'" "0 < U"
  shows "streamFilePart api part start end' U =
     streamLoop api part U (start mod U) (end' mod U + 1) (spec_partCount start end' U)
       (spec_offset start U 0) 1"
proof -
  have r1: "go_rem start U = start mod U" using assms by (simp add: go_rem_nonneg)
  have r2: "go_rem end' U = end' mod U" using assms by (simp add: go_rem_nonneg)
  have o: "start - start mod U = start div U * U" by (rule minus_mod_eq_div_mult)
  have d: "(start div U * U) div U = start div U" using assms by simp
  have f: "start - start div U * U = start mod U" by (rule minus_div_mult_eq_mod)
  have z: "U \<noteq> 0" using assms by simp
  show ?thesis
    unfolding streamFilePart_def Let_def r1 r2 o d f spec_partCount_def spec_offset_def
    using z by simp
qed

lemma same_block_cuts:
  assumes "0 < U" "start \<le> end'" "spec_partCount start end' U = 1"
  shows "start mod U \<le> end' mod U"
proof -
  have "end' div U = start div U" using assms by (simp add: spec_partCount_eq)
  moreover have "start = start div U * U + start mod U" by simp
  moreover have "end' = end' div U * U + end' mod U" by simp
  ultimately show ?thesis
    using assms(2) by (metis add_le_cancel_left)
qed


section \<open>Complete and interrupted part streams\<close>

lemma spec_offset_step: "spec_offset start U 0 + int j * U = spec_offset start U j"
  by (simp add: spec_offset_def)

text \<open>
  The first \<open>k\<close> rounds, none of them the last expected one, on blocks that suffice:
  their events, followed by whatever the loop does from round \<open>k\<close> on.
\<close>

lemma streamFilePart_prefix:
  assumes "0 \<le> start" "start \<le> end'" "0 < U"
    and k: "int k < spec_partCount start end' U"
    and ok: "\<And>j. j < k \<Longrightarrow> suffices start end' U j (block api part start U j)"
  shows "streamFilePart api part start end' U =
     (case streamLoop api part U (start mod U) (end' mod U + 1)
             (spec_partCount start end' U) (spec_offset start U k) (int k + 1) of
        (evs, res) \<Rightarrow>
          (concat (map (round_events api part start end' U) [0..<k]) @ evs, res))"
proof -
  let ?n = "spec_partCount start end' U"
  let ?off0 = "spec_offset start U 0"
  have e0: "0 \<le> end'" using assms by simp
  have steps: "streamLoop api part U (start mod U) (end' mod U + 1) ?n (?off0 + int 0 * U) (int 0 + 1) =
     (case streamLoop api part U (start mod U) (end' mod U + 1) ?n (?off0 + int k * U) (int k + 1) of
        (evs, res) \<Rightarrow>
          (concat (map (\<lambda>j. [Fetch (Location part) (?off0 + int j * U) U,
                              Write (if j = 0
                                     then drop (nat (start mod U)) (elems (chunk_bytes api part (?off0 + int j * U) U))
                                     else elems (chunk_bytes api part (?off0 + int j * U) U))])
                     [0..<k]) @ evs, res))"
  proof (rule streamLoop_steps)
    show "0 \<le> k" by simp
    show "int k < ?n" by (rule k)
    fix j assume "0 \<le> j" "j < k"
    then have "suffices start end' U j (block api part start U j)" by (simp add: ok)
    then show "elems (chunk_bytes api part (?off0 + int j * U) U) \<noteq> [] \<and>
          (j = 0 \<longrightarrow> 0 \<le> start mod U \<and>
             start mod U \<le> int (length (elems (chunk_bytes api part (?off0 + int j * U) U))))"
      using assms(3) by (simp add: suffices_def block_def spec_offset_step)
  qed
  have same: "map (\<lambda>j. [Fetch (Location part) (?off0 + int j * U) U,
                              Write (if j = 0
                                     then drop (nat (start mod U)) (elems (chunk_bytes api part (?off0 + int j * U) U))
                                     else elems (chunk_bytes api part (?off0 + int j * U) U))])
                     [0..<k] = map (round_events api part start end' U) [0..<k]"
  proof (rule map_cong[OF refl])
    fix j assume "j \<in> set [0..<k]"
    then have "int j \<noteq> ?n - 1" using k by auto
    then show "[Fetch (Location part) (?off0 + int j * U) U,
                              Write (if j = 0
                                     then drop (nat (start mod U)) (elems (chunk_bytes api part (?off0 + int j * U) U))
                                     else elems (chunk_bytes api part (?off0 + int j * U) U))] = round_events api part start end' U j"
      by (simp add: round_events_def spec_trim_def block_def spec_offset_step)
  qed
  show ?thesis
    using steps unfolding same streamFilePart_loop[OF assms(1) e0 assms(3)]
    by (simp add: spec_offset_step)
qed

text \<open>The last expected round on a block that suffices.\<close>

lemma last_round:
  assumes "0 \<le> start" "start \<le> end'" "0 < U"
    and k: "int k = spec_partCount start end' U - 1"
    and ok: "suffices start end' U k (block api part start U k)"
  shows "streamLoop api part U (start mod U) (end' mod U + 1)
             (spec_partCount start end' U) (spec_offset start U k) (int k + 1) =
         (round_events api part start end' U k, None)"
proof -
  let ?n = "spec_partCount start end' U"
  let ?s = "chunk_bytes api part (spec_offset start U k) U"
  let ?r = "elems ?s"
  have n: "int k + 1 = ?n" using k by simp
  have ne: "?r \<noteq> []" and lc: "end' mod U + 1 \<le> go_len ?s"
    using ok k by (simp_all add: suffices_def block_def go_len_def)
  have lc0: "0 \<le> end' mod U + 1" using assms(3) pos_mod_sign[of U end'] by linarith
  have fc0: "0 \<le> start mod U" using assms(3) by simp
  show ?thesis
  proof (cases "?n = 1")
    case True
    then have k0: "k = 0" using k by simp
    have "start mod U \<le> end' mod U" using same_block_cuts[OF assms(3) assms(2) True] .
    then have "go_slice ?s (start mod U) (end' mod U + 1) =
        Inr (Slice (drop (nat (start mod U)) (take (nat (end' mod U + 1)) ?r))
               (drop (nat (end' mod U + 1)) ?r @ spare ?s))"
      using fc0 lc by (intro go_slice_both) auto
    then show ?thesis
      unfolding n streamLoop_last[OF ne] using True k0
      by (simp add: round_events_def spec_trim_def block_def)
  next
    case False
    then have k0: "k \<noteq> 0" using k by auto
    have "go_slice ?s 0 (end' mod U + 1) =
        Inr (Slice (take (nat (end' mod U + 1)) ?r) (drop (nat (end' mod U + 1)) ?r @ spare ?s))"
      using lc0 lc by (rule go_slice_take)
    then show ?thesis
      unfolding n streamLoop_last[OF ne] using False k0 k
      by (simp add: round_events_def spec_trim_def block_def)
  qed
qed

text \<open>All expected rounds on blocks that suffice.\<close>

lemma streamFilePart_complete:
  assumes "0 \<le> start" "start \<le> end'" "0 < U"
    and ok: "\<And>j. j < nat (spec_partCount start end' U) \<Longrightarrow>
               suffices start end' U j (block api part start U j)"
  shows "streamFilePart api part start end' U =
     (concat (map (round_events api part start end' U) [0..<nat (spec_partCount start end' U)]), None)"
proof -
  let ?n = "spec_partCount start end' U"
  have n1: "1 \<le> ?n" using assms by (simp add: spec_partCount_pos)
  define k where "k = nat (?n - 1)"
  have k: "int k = ?n - 1" using n1 by (simp add: k_def)
  have kn: "nat ?n = Suc k" using n1 by (simp add: k_def)
  have pre: "streamFilePart api part start end' U =
     (case streamLoop api part U (start mod U) (end' mod U + 1) ?n (spec_offset start U k) (int k + 1) of
        (evs, res) \<Rightarrow>
          (concat (map (round_events api part start end' U) [0..<k]) @ evs, res))"
    by (rule streamFilePart_prefix[OF assms(1-3)]) (use k kn ok in auto)
  have "suffices start end' U k (block api part start U k)" using ok[of k] kn by simp
  from last_round[OF assms(1-3) k this] show ?thesis
    unfolding pre kn by simp
qed

section \<open>Projections of a run\<close>

lemma fetches_append: "fetches (xs @ ys) = fetches xs @ fetches ys"
  by (induction xs rule: fetches.induct) auto

lemma written_append: "written (xs @ ys) = written xs @ written ys"
  by (induction xs rule: written.induct) auto

lemma fetches_rounds:
  "fetches (concat (map (round_events api part s e U) ks)) =
     map (\<lambda>k. (Location part, spec_offset s U k, U)) ks"
  by (induction ks) (auto simp: round_events_def)

lemma written_rounds:
  "written (concat (map (round_events api part s e U) ks)) =
     concat (map (\<lambda>k. spec_trim s e U k (block api part s U k)) ks)"
  by (induction ks) (auto simp: round_events_def)

section \<open>The part streamer against its description\<close>

text \<open>
  C3, as the source has it. For \<open>0 \<le> localStart \<le> localEnd\<close> and \<open>U > 0\<close>, when every
  expected block suffices (it is not empty, the first one has at least
  \<open>localStart mod U\<close> bytes and the last one at least \<open>localEnd mod U + 1\<close>),
  \<open>streamFilePart\<close> ends without panic after
  \<open>ceil((localEnd+1)/U) - floor(localStart/U)\<close> fetches of limit \<open>U\<close>, the \<open>k\<close>-th at
  offset \<open>floor(localStart/U)\<cdot>U + k\<cdot>U\<close>, and writes each block trimmed as the spec
  says: the first without the bytes before \<open>localStart\<close>, the last without the bytes
  after \<open>localEnd\<close>, a block that is both with both trims.
\<close>

theorem part_stream_fetches_and_trims:
  assumes "0 \<le> localStart" "localStart \<le> localEnd" "0 < U"
    and "\<forall>k < nat (spec_partCount localStart localEnd U).
           suffices localStart localEnd U k (block api part localStart U k)"
  shows "streamFilePart api part localStart localEnd U =
           (concat (map (round_events api part localStart localEnd U)
                      [0..<nat (spec_partCount localStart localEnd U)]), None) \<and>
         fetches (fst (streamFilePart api part localStart localEnd U)) =
           map (\<lambda>k. (Location part, spec_offset localStart U k, U))
             [0..<nat (spec_partCount localStart localEnd U)] \<and>
         int (length (fetches (fst (streamFilePart api part localStart localEnd U)))) =
           ceil_div (localEnd + 1) U - localStart div U \<and>
         written (fst (streamFilePart api part localStart localEnd U)) =
           concat (map (\<lambda>k. spec_trim localStart localEnd U k (block api part localStart U k))
                     [0..<nat (spec_partCount localStart localEnd U)])"
proof -
  have run: "streamFilePart api part localStart localEnd U =
           (concat (map (round_events api part localStart localEnd U)
                      [0..<nat (spec_partCount localStart localEnd U)]), None)"
    by (rule streamFilePart_complete) (use assms in auto)
  have "1 \<le> spec_partCount localStart localEnd U"
    using assms by (simp add: spec_partCount_pos)
  then have "int (nat (spec_partCount localStart localEnd U)) =
      ceil_div (localEnd + 1) U - localStart div U"
    by (simp add: spec_partCount_def)
  then show ?thesis
    unfolding run by (simp add: fetches_rounds written_rounds)
qed

text \<open>
  The theorem at a twelve-byte document, the range \<open>[3, 9]\<close> and \<open>U = 4\<close>: three
  fetches at offsets 0, 4 and 8, and the writes \<open>[3]\<close>, \<open>[4..7]\<close> and \<open>[8, 9]\<close>.
\<close>

theorem part_stream_fetches_and_trims_witness:
  "(0::int) \<le> 3 \<and> (3::int) \<le> 9 \<and> (0::int) < 4 \<and>
   nat (spec_partCount 3 9 4) = 3 \<and>
   suffices 3 9 4 0 (block (serve twelve_bytes) (mkPart 0 12) 3 4 0) \<and>
   suffices 3 9 4 1 (block (serve twelve_bytes) (mkPart 0 12) 3 4 1) \<and>
   suffices 3 9 4 2 (block (serve twelve_bytes) (mkPart 0 12) 3 4 2) \<and>
   streamFilePart (serve twelve_bytes) (mkPart 0 12) 3 9 4 =
     ([Fetch 0 0 4, Write [3], Fetch 0 4 4, Write [4, 5, 6, 7], Fetch 0 8 4, Write [8, 9]],
      None) \<and>
   int (length (fetches (fst (streamFilePart (serve twelve_bytes) (mkPart 0 12) 3 9 4)))) =
     ceil_div (9 + 1) 4 - 3 div 4"
proof -
  have n: "nat (spec_partCount 3 9 4) = 3"
    by (simp add: spec_partCount_def ceil_div_def)
  have s: "suffices 3 9 4 0 (block (serve twelve_bytes) (mkPart 0 12) 3 4 0)"
    "suffices 3 9 4 1 (block (serve twelve_bytes) (mkPart 0 12) 3 4 1)"
    "suffices 3 9 4 2 (block (serve twelve_bytes) (mkPart 0 12) 3 4 2)"
    by (simp_all add: suffices_def block_def spec_offset_def spec_partCount_def
        ceil_div_def chunk_bytes_def chunk_def serve_def twelve_bytes_def mkPart_def)
  have h: "\<forall>k < nat (spec_partCount 3 9 4).
      suffices 3 9 4 k (block (serve twelve_bytes) (mkPart 0 12) 3 4 k)"
    unfolding n using s by (auto simp: less_Suc_eq eval_nat_numeral)
  have ev: "streamFilePart (serve twelve_bytes) (mkPart 0 12) 3 9 4 =
     ([Fetch 0 0 4, Write [3], Fetch 0 4 4, Write [4, 5, 6, 7], Fetch 0 8 4, Write [8, 9]],
      None)"
    by (simp add: streamer_defs serve_def twelve_bytes_def mkPart_def)
  have "(0::int) \<le> 3" "(3::int) \<le> 9" "(0::int) < 4" by simp_all
  from part_stream_fetches_and_trims[OF this h]
  have c: "int (length (fetches (fst (streamFilePart (serve twelve_bytes) (mkPart 0 12) 3 9 4)))) =
     ceil_div (9 + 1) 4 - 3 div 4"
    by (elim conjE)
  show ?thesis
    using n s ev c by simp
qed

text \<open>
  C3 as stated asks only that no fetch returns empty. A remote that answers every
  fetch with two bytes never returns empty, yet for the range \<open>[3, 9]\<close> and \<open>U = 4\<close>
  the first round slices \<open>r[3:]\<close> on a block of length 2 and panics: one fetch has
  been made, where \<open>ceil(10/4) - floor(3/4) = 3\<close>.
\<close>

theorem short_first_block_counterexample:
  "(3::int) \<le> 9 \<and> (0::int) < 4 \<and>
   elems (chunk_bytes two_byte_remote (mkPart 0 12) 0 4) = [7, 7] \<and>
   streamFilePart two_byte_remote (mkPart 0 12) 3 9 4 =
     ([Fetch 0 0 4], Some SliceBoundsOutOfRange) \<and>
   int (length (fetches (fst (streamFilePart two_byte_remote (mkPart 0 12) 3 9 4)))) \<noteq>
     ceil_div (9 + 1) 4 - 3 div 4"
  by (simp add: streamer_defs two_byte_remote_def mkPart_def)

section \<open>Empty blocks\<close>

lemma trimmed_total_bound:
  assumes "\<And>j. j < k \<Longrightarrow> int (length (t j)) \<le> U - (if j = 0 then c else 0)" "0 < k"
  shows "int (length (concat (map t [0..<k]))) \<le> int k * U - c"
  using assms
proof (induction k)
  case 0
  then show ?case by simp
next
  case (Suc k)
  show ?case
  proof (cases "k = 0")
    case True
    then show ?thesis using Suc.prems(1)[of 0] by simp
  next
    case False
    then have "int (length (concat (map t [0..<k]))) \<le> int k * U - c"
      using Suc by simp
    moreover have "int (length (t k)) \<le> U" using Suc.prems(1)[of k] False by simp
    ultimately show ?thesis by (simp add: algebra_simps)
  qed
qed

lemma range_length:
  assumes "0 < U"
  shows "e - s + 1 = (spec_partCount s e U - 1) * U + (e mod U + 1) - s mod U"
proof -
  have "e = e div U * U + e mod U" "s = s div U * U + s mod U" by simp_all
  then have "e - s + 1 = (e div U - s div U) * U + (e mod U + 1) - s mod U"
    by (smt (verit) left_diff_distrib)
  then show ?thesis using assms by (simp add: spec_partCount_eq)
qed

text \<open>
  C8, as the source has it. An empty fetch result (a failed fetch included: its error
  is dropped) ends the part stream in the same way at whichever expected block \<open>k\<close> it
  occurs, the last one or an earlier one: after the rounds before it, which go on over
  short blocks as long as they suffice, the fetch of block \<open>k\<close> is the last event and
  \<open>streamFilePart\<close> returns normally. With blocks of at most \<open>U\<close> bytes the bytes
  written are then fewer than \<open>localEnd - localStart + 1\<close>; nothing else tells the
  caller that the transfer is incomplete.
\<close>

theorem empty_block_ends_stream:
  assumes "0 \<le> localStart" "localStart \<le> localEnd" "0 < U"
    and k: "int k < spec_partCount localStart localEnd U"
    and ok: "\<forall>j<k. suffices localStart localEnd U j (block api part localStart U j) \<and>
                  int (length (block api part localStart U j)) \<le> U"
    and empty: "block api part localStart U k = []"
  shows "streamFilePart api part localStart localEnd U =
           (concat (map (round_events api part localStart localEnd U) [0..<k]) @
              [Fetch (Location part) (spec_offset localStart U k) U], None) \<and>
         length (fetches (fst (streamFilePart api part localStart localEnd U))) = k + 1 \<and>
         int (length (written (fst (streamFilePart api part localStart localEnd U)))) <
           localEnd - localStart + 1"
proof -
  let ?n = "spec_partCount localStart localEnd U"
  let ?t = "\<lambda>j. spec_trim localStart localEnd U j (block api part localStart U j)"
  have pre: "streamFilePart api part localStart localEnd U =
     (case streamLoop api part U (localStart mod U) (localEnd mod U + 1) ?n
             (spec_offset localStart U k) (int k + 1) of
        (evs, res) \<Rightarrow>
          (concat (map (round_events api part localStart localEnd U) [0..<k]) @ evs, res))"
    by (rule streamFilePart_prefix[OF assms(1-3) k]) (use ok in simp)
  have "elems (chunk_bytes api part (spec_offset localStart U k) U) = []"
    using empty by (simp add: block_def)
  then have run: "streamFilePart api part localStart localEnd U =
           (concat (map (round_events api part localStart localEnd U) [0..<k]) @
              [Fetch (Location part) (spec_offset localStart U k) U], None)"
    unfolding pre by (simp add: streamLoop_empty)
  have w: "written (fst (streamFilePart api part localStart localEnd U)) = concat (map ?t [0..<k])"
    unfolding run by (simp add: written_append written_rounds)
  have short: "int (length (concat (map ?t [0..<k]))) < localEnd - localStart + 1"
  proof (cases "k = 0")
    case True
    then show ?thesis using assms(2) by simp
  next
    case False
    have each: "int (length (?t j)) \<le> U - (if j = 0 then localStart mod U else 0)" if "j < k" for j
    proof -
      have "int j \<noteq> ?n - 1" using that k by simp
      moreover have "localStart mod U \<le> int (length (block api part localStart U j))" if "j = 0"
        using ok \<open>j < k\<close> that by (simp add: suffices_def)
      moreover have "int (length (block api part localStart U j)) \<le> U"
        using ok \<open>j < k\<close> by simp
      ultimately show ?thesis by (auto simp: spec_trim_def)
    qed
    have "int (length (concat (map ?t [0..<k]))) \<le> int k * U - localStart mod U"
      by (rule trimmed_total_bound) (use each False in auto)
    moreover have "int k * U \<le> (?n - 1) * U"
      using k assms(3) by (intro mult_right_mono) auto
    moreover have "0 \<le> localEnd mod U" using assms(3) by simp
    ultimately show ?thesis
      using range_length[OF assms(3), of localEnd localStart] by linarith
  qed
  show ?thesis
    using short unfolding w[symmetric] unfolding run
    by (simp add: fetches_append fetches_rounds)
qed

text \<open>
  The theorem at a remote that answers the fetch at offset 0 and fails afterwards, for
  the range \<open>[1, 10]\<close> and \<open>U = 4\<close>: the second of three expected blocks is empty, two
  fetches are made and 3 of the 10 bytes are written.
\<close>

theorem empty_block_ends_stream_witness:
  "(0::int) \<le> 1 \<and> (1::int) \<le> 10 \<and> (0::int) < 4 \<and>
   int 1 < spec_partCount 1 10 4 \<and>
   suffices 1 10 4 0 (block flaky_remote (mkPart 0 12) 1 4 0) \<and>
   int (length (block flaky_remote (mkPart 0 12) 1 4 0)) \<le> 4 \<and>
   block flaky_remote (mkPart 0 12) 1 4 1 = [] \<and>
   streamFilePart flaky_remote (mkPart 0 12) 1 10 4 =
     ([Fetch 0 0 4, Write [1, 2, 3], Fetch 0 4 4], None) \<and>
   int (length (written (fst (streamFilePart flaky_remote (mkPart 0 12) 1 10 4)))) <
     10 - 1 + 1"
proof -
  have a: "(0::int) \<le> 1" "(1::int) \<le> 10" "(0::int) < 4" by simp_all
  have k: "int 1 < spec_partCount 1 10 4"
    by (simp add: spec_partCount_def ceil_div_def)
  have s: "suffices 1 10 4 0 (block flaky_remote (mkPart 0 12) 1 4 0)"
    "int (length (block flaky_remote (mkPart 0 12) 1 4 0)) \<le> 4"
    by (simp_all add: suffices_def block_def spec_offset_def spec_partCount_def ceil_div_def
        chunk_bytes_def chunk_def flaky_remote_def)
  have ok: "\<forall>j<1. suffices 1 10 4 j (block flaky_remote (mkPart 0 12) 1 4 j) \<and>
           int (length (block flaky_remote (mkPart 0 12) 1 4 j)) \<le> 4"
    using s by simp
  have e: "block flaky_remote (mkPart 0 12) 1 4 1 = []"
    by (simp add: block_def spec_offset_def chunk_bytes_def chunk_def flaky_remote_def)
  have ev: "streamFilePart flaky_remote (mkPart 0 12) 1 10 4 =
     ([Fetch 0 0 4, Write [1, 2, 3], Fetch 0 4 4], None)"
    by (simp add: streamer_defs flaky_remote_def mkPart_def)
  from empty_block_ends_stream[OF a k ok e]
  have c: "int (length (written (fst (streamFilePart flaky_remote (mkPart 0 12) 1 10 4)))) <
     10 - 1 + 1"
    by (elim conjE)
  show ?thesis using a k s e ev c by simp
qed

text \<open>
  C8 as stated treats an empty result as the end of the data only on the last expected
  block. For the range \<open>[1, 10]\<close> and \<open>U = 4\<close> three blocks are expected; the fetch of
  the second one fails, \<open>chunk\<close> returns the error, the loop sees an empty block, stops
  and \<open>streamFilePart\<close> returns normally, as it does at the end of the data.
\<close>

theorem dropped_error_counterexample:
  "spec_partCount 1 10 4 = 3 \<and>
   chunk flaky_remote (mkPart 0 12) 4 4 = Inl ''rpc error'' \<and>
   elems (chunk_bytes flaky_remote (mkPart 0 12) 4 4) = [] \<and>
   streamFilePart flaky_remote (mkPart 0 12) 1 10 4 =
     ([Fetch 0 0 4, Write [1, 2, 3], Fetch 0 4 4], None)"
  by (simp add: spec_partCount_def streamer_defs flaky_remote_def mkPart_def)

section \<open>Trims within the bounds of the block\<close>






section \<open>Status, headers and body of the response\<close>

text \<open>
  When the client, the file, the range (if a \<open>Range\<close> header is present) and the parts
  all resolve and nothing panics, the response carries \<open>Content-Type\<close> (the file's
  MIME type), \<open>Content-Disposition\<close> (inline, with the file name), \<open>Content-Length\<close>
  and \<open>Accept-Ranges: bytes\<close>; without a \<open>Range\<close> header the status is 200, there is
  no \<open>Content-Range\<close> and \<open>Content-Length\<close> is the file size; with one the status is
  206, \<open>Content-Range\<close> is \<open>bytes start-end/size\<close> and \<open>Content-Length\<close> is
  \<open>end - start + 1\<close>.
\<close>

lemma success_response_headers:
  assumes client: "MultiClient e \<or> GetAuthClient e = None"
    and found: "GetFileByID e = Inr file"
    and ranges: "Range r \<noteq> [] \<longrightarrow> Parse e (FileSize file) (Range r) = Inr ((start, end') # rest)"
    and resolved: "getParts e = Inr parts"
    and ok: "crashed (GetFileStream e r workload) = None"
  shows "header (writer (GetFileStream e r workload)) ''Content-Type'' = Some (MimeType file) \<and>
         header (writer (GetFileStream e r workload)) ''Content-Disposition'' =
           Some (''inline; filename=\"'' @ Name file @ ''\"'') \<and>
         header (writer (GetFileStream e r workload)) ''Accept-Ranges'' = Some ''bytes'' \<and>
         (Range r = [] \<longrightarrow>
            status (writer (GetFileStream e r workload)) = 200 \<and>
            header (writer (GetFileStream e r workload)) ''Content-Range'' = None \<and>
            header (writer (GetFileStream e r workload)) ''Content-Length'' =
              Some (FormatInt (FileSize file))) \<and>
         (Range r \<noteq> [] \<longrightarrow>
            status (writer (GetFileStream e r workload)) = 206 \<and>
            header (writer (GetFileStream e r workload)) ''Content-Range'' =
              Some (''bytes '' @ FormatInt start @ ''-'' @ FormatInt end' @ ''/'' @
                    FormatInt (FileSize file)) \<and>
            header (writer (GetFileStream e r workload)) ''Content-Length'' =
              Some (FormatInt (end' - start + 1)))"
proof -
  have c: "(if MultiClient e then None else GetAuthClient e) = None"
    using client by auto
  show ?thesis
  proof (cases "Range r = []")
    case True
    show ?thesis
    proof (cases "rangedParts parts 0 (FileSize file - 1)")
      case (Inl p)
      then show ?thesis
        using ok unfolding GetFileStream_def Let_def c found resolved
        by (simp add: True writer_defs)
    next
      case (Inr ps)
      then show ?thesis
        unfolding GetFileStream_def Let_def c found resolved
        by (simp add: True writer_defs split_beta)
    qed
  next
    case False
    then have p: "Parse e (FileSize file) (Range r) = Inr ((start, end') # rest)"
      using ranges by simp
    show ?thesis
    proof (cases "rangedParts parts start end'")
      case (Inl p')
      then show ?thesis
        using ok unfolding GetFileStream_def Let_def c found resolved
        by (simp add: False p writer_defs)
    next
      case (Inr ps)
      then show ?thesis
        unfolding GetFileStream_def Let_def c found resolved
        by (simp add: False p writer_defs split_beta)
    qed
  qed
qed

text \<open>
  C4. A \<open>GET\<close> without \<open>Range\<close> header for the nine-byte file (parts of 4, 4 and 1
  bytes) is answered with status 200, \<open>Accept-Ranges: bytes\<close>, \<open>Content-Type\<close>,
  \<open>Content-Disposition\<close> and \<open>Content-Length: 9\<close>, and nothing panics; but the body is
  not the full file. The range is \<open>[0, 8]\<close>, \<open>end = 8\<close> is a multiple of the chunk
  size, \<open>rangedParts\<close> selects parts 0 and 1 only and trims part 1 to its first byte:
  the body is the five bytes \<open>0..4\<close>.
\<close>

theorem full_body_cut_short:
  "Range (GET []) = [] \<and>
   crashed (GetFileStream nine_env (GET []) 0) = None \<and>
   status (writer (GetFileStream nine_env (GET []) 0)) = 200 \<and>
   header (writer (GetFileStream nine_env (GET []) 0)) ''Accept-Ranges'' = Some ''bytes'' \<and>
   header (writer (GetFileStream nine_env (GET []) 0)) ''Content-Type'' =
     Some ''application/octet-stream'' \<and>
   header (writer (GetFileStream nine_env (GET []) 0)) ''Content-Disposition'' =
     Some ''inline; filename=\"b.bin\"'' \<and>
   header (writer (GetFileStream nine_env (GET []) 0)) ''Content-Length'' = Some ''9'' \<and>
   concat (map nine_bytes [0, 1, 2]) = [0, 1, 2, 3, 4, 5, 6, 7, 8] \<and>
   body (writer (GetFileStream nine_env (GET []) 0)) = [0, 1, 2, 3, 4]"
  by (simp add: GetFileStream_def nine_env_def nine_file_def ten_env_def GET_def writer_defs
      slicer_defs streamer_defs serve_def nine_bytes_def FormatInt_def digits.simps)

section \<open>Rejected ranges and the empty file\<close>

text \<open>
  A \<open>Range\<close> header that the range parser rejects is answered, like every other
  failure the handler looks for, through \<open>http.Error\<close>: status 400, the error message
  and a newline as the body, no fetch, no panic.
\<close>

lemma rejected_range_answer:
  assumes client: "MultiClient e \<or> GetAuthClient e = None"
    and found: "GetFileByID e = Inr file"
    and present: "Range r \<noteq> []"
    and rejected: "Parse e (FileSize file) (Range r) = Inl err"
  shows "status (writer (GetFileStream e r workload)) = 400 \<and>
         body (writer (GetFileStream e r workload)) = bytes_of (err @ [CHR 0x0A]) \<and>
         events (GetFileStream e r workload) = [] \<and>
         crashed (GetFileStream e r workload) = None"
proof -
  have c: "(if MultiClient e then None else GetAuthClient e) = None"
    using client by auto
  show ?thesis
    unfolding GetFileStream_def Let_def c found
    by (simp add: present rejected writer_defs)
qed

text \<open>
  C7. A \<open>GET\<close> without \<open>Range\<close> header for a file of size 0 without parts has
  \<open>start = 0 > end = -1\<close> and an empty part list. The handler sets the status 200 and
  the headers and calls \<open>rangedParts\<close>, where \<open>parts[0]\<close> panics: the request does not
  end in a 400 of \<open>http.Error\<close>, as the other failures do, but in a panic of the
  handler. No fetch is made and no body byte is written.
\<close>

theorem empty_file_panics:
  "FileSize empty_file = 0 \<and>
   getParts empty_env = Inr (Slice [] []) \<and>
   rangedParts (Slice [] []) 0 (0 - 1) = Inl IndexOutOfRange \<and>
   crashed (GetFileStream empty_env (GET []) 0) = Some IndexOutOfRange \<and>
   status (writer (GetFileStream empty_env (GET []) 0)) = 200 \<and>
   events (GetFileStream empty_env (GET []) 0) = [] \<and>
   body (writer (GetFileStream empty_env (GET []) 0)) = []"
  by (simp add: GetFileStream_def empty_env_def empty_file_def ten_env_def GET_def
      writer_defs slicer_defs)

section \<open>The range slicer at chunk boundaries\<close>

text \<open>
  The example of the spec: with parts of 1000, 1000 and 500 bytes, the range
  \<open>[1500, 2200]\<close> selects parts 1 and 2, trimmed to \<open>[500, 999]\<close> and \<open>[0, 200]\<close>.
\<close>

lemma rangedParts_spec_example:
  "rangedParts spec_parts 1500 2200 =
     Inr (Slice [\<lparr>Location = 1, Start = 500, End = 999, Size = 1000\<rparr>,
                 \<lparr>Location = 2, Start = 0, End = 200, Size = 500\<rparr>] [])"
  by (simp add: spec_parts_def slicer_defs)

text \<open>
  The parts selected do not depend on the capacity of the slice that \<open>getParts\<close>
  built: whenever \<open>rangedParts\<close> returns for a slice without spare capacity, it
  returns the same elements for that slice with any spare capacity.
\<close>

lemma rangedParts_any_capacity:
  assumes "rangedParts (Slice ps []) start end' = Inr r"
  shows "\<exists>sp'. rangedParts (Slice ps sp) start end' = Inr (Slice (elems r) sp')"
  using assms
  by (auto simp: rangedParts_def go_slice_def go_cap_def Let_def
      split: list.splits if_splits)

text \<open>
  The end index of the source, \<open>ceil(end/chunkSize)\<close>, and the one of the spec,
  \<open>ceil((end+1)/chunkSize)\<close>, agree unless \<open>end\<close> is a multiple of the chunk size;
  there the source's is one less.
\<close>

lemma end_index_off_boundary:
  "0 < c \<Longrightarrow> e mod c \<noteq> 0 \<Longrightarrow> ceil_div e c = ceil_div (e + 1) c"
  by (simp add: ceil_div_succ) (simp add: ceil_div_def zdiv_zminus1_eq_if)

lemma end_index_on_boundary:
  "0 < c \<Longrightarrow> e mod c = 0 \<Longrightarrow> ceil_div e c = ceil_div (e + 1) c - 1"
  by (simp add: ceil_div_succ) (simp add: ceil_div_def zdiv_zminus1_eq_if)

text \<open>
  C2. The claim puts the exclusive end index at \<open>ceil((end+1)/chunkSize)\<close>; the source
  computes \<open>ceil(end/chunkSize)\<close>. For the range \<open>[500, 1000]\<close> over parts of 1000,
  1000 and 500 bytes the claimed end index is 2 (parts 0 and 1, byte 1000 being the
  first byte of part 1), while \<open>rangedParts\<close> returns part 0 alone, with
  \<open>Start = 500\<close> and \<open>End = 0\<close> (parts 1 and 2 stay behind it in the backing array).
\<close>

theorem rangedParts_end_on_boundary:
  "ceil_div (1000 + 1) 1000 = 2 \<and>
   rangedParts spec_parts 500 1000 =
     Inr (Slice [\<lparr>Location = 0, Start = 500, End = 0, Size = 1000\<rparr>]
                [\<lparr>Location = 1, Start = 0, End = 999, Size = 1000\<rparr>,
                 \<lparr>Location = 2, Start = 0, End = 499, Size = 500\<rparr>])"
  by (simp add: spec_parts_def slicer_defs)

text \<open>
  C1. For the ten-byte file and the valid range \<open>[4, 5]\<close>, whose start is a multiple of
  the chunk size, \<open>rangedParts\<close> selects part 0 as well as part 1, and the producer
  emits the six bytes \<open>0..5\<close> where the slice \<open>[4, 5]\<close> of the file is the two bytes
  \<open>4, 5\<close>. The body of the response, cut by \<open>io.CopyN\<close> to the promised two bytes, is
  \<open>0, 1\<close>.
\<close>

theorem pipeline_start_on_boundary:
  "rangedParts three_parts 4 5 =
     Inr (Slice [\<lparr>Location = 0, Start = 0, End = 3, Size = 4\<rparr>,
                 \<lparr>Location = 1, Start = 0, End = 1, Size = 4\<rparr>]
                [\<lparr>Location = 2, Start = 0, End = 1, Size = 2\<rparr>]) \<and>
   producer (serve ten_bytes)
     [\<lparr>Location = 0, Start = 0, End = 3, Size = 4\<rparr>,
      \<lparr>Location = 1, Start = 0, End = 1, Size = 4\<rparr>] =
     ([Fetch 0 0 1048576, Write [0, 1, 2, 3], Fetch 1 0 1048576, Write [4, 5]], None) \<and>
   written [Fetch 0 0 1048576, Write [0, 1, 2, 3], Fetch 1 0 1048576, Write [4, 5]] =
     [0, 1, 2, 3, 4, 5] \<and>
   take (nat (5 - 4 + 1)) (drop (nat 4) (concat (map ten_bytes [0, 1, 2]))) = [4, 5] \<and>
   body (writer (GetFileStream ten_env (GET ''bytes=4-5'') 0)) = [0, 1]"
  by (simp add: GetFileStream_def ten_env_def ten_file_def GET_def writer_defs
      three_parts_def slicer_defs streamer_defs serve_def ten_bytes_def)

section \<open>The orchestrator on concrete requests\<close>

text \<open>
  Whatever the file and the range, the status and the header map of a \<open>HEAD\<close> request
  are those of the \<open>GET\<close> request: both are complete before the method is looked at.
\<close>

lemma HEAD_headers_as_GET:
  "header (writer (GetFileStream e (HEAD h) w0)) =
     header (writer (GetFileStream e (GET h) w0)) \<and>
   status (writer (GetFileStream e (HEAD h) w0)) =
     status (writer (GetFileStream e (GET h) w0))"
proof (cases "if MultiClient e then None else GetAuthClient e")
  case (Some err)
  then show ?thesis by (simp add: GetFileStream_def HEAD_def GET_def)
next
  case None
  note client = this
  show ?thesis
  proof (cases "GetFileByID e")
    case (Inl err)
    then show ?thesis using client by (simp add: GetFileStream_def HEAD_def GET_def)
  next
    case (Inr f)
    note found = this
    show ?thesis
    proof (cases "getParts e")
      case (Inl err)
      then show ?thesis
        using client found
        by (simp add: GetFileStream_def HEAD_def GET_def Let_def split_beta
            split: sum.split list.split)
    next
      case (Inr parts)
      then show ?thesis
        using client found
        by (simp add: GetFileStream_def HEAD_def GET_def Let_def split_beta returned_def
            split: sum.split list.split)
    qed
  qed
qed

text \<open>A reader that wants no byte receives none.\<close>

lemma pipe_0_bytes: "fst (snd (pipe 0 evs)) = []"
proof (induction evs)
  case Nil
  show ?case by simp
next
  case (Cons ev evs)
  then show ?case by (cases ev) (simp_all add: split_beta)
qed

text \<open>
  C5. A \<open>HEAD\<close> request for the ten-byte file gets the status and the header map of
  the \<open>GET\<close> request and no body byte, but the producer is started before the method
  is looked at: it performs the first fetch and then waits in \<open>Write\<close> for a reader
  that never comes.
\<close>

theorem HEAD_fetches_first_chunk:
  "header (writer (GetFileStream ten_env (HEAD []) 0)) =
     header (writer (GetFileStream ten_env (GET []) 0)) \<and>
   status (writer (GetFileStream ten_env (HEAD []) 0)) =
     status (writer (GetFileStream ten_env (GET []) 0)) \<and>
   body (writer (GetFileStream ten_env (HEAD []) 0)) = [] \<and>
   events (GetFileStream ten_env (HEAD []) 0) =
     [Fetch 0 0 1048576, Write [0, 1, 2, 3]] \<and>
   fetches (events (GetFileStream ten_env (HEAD []) 0)) = [(0, 0, 1048576)]"
  by (simp add: GetFileStream_def ten_env_def ten_file_def HEAD_def GET_def three_parts_def
      writer_defs slicer_defs streamer_defs serve_def ten_bytes_def)

text \<open>
  C6. In multi-client mode a request for an unknown file id leaves through the early
  \<open>return\<close> after \<open>GetFileByID\<close>, before the \<open>defer\<close> at the end of the function is
  registered: the counter, 5 before the request, is 6 after it.
\<close>

theorem Workload_leaks_on_unknown_file:
  "MultiClient unknown_env \<and>
   status (writer (GetFileStream unknown_env (GET []) 5)) = 400 \<and>
   Workload (GetFileStream unknown_env (GET []) 5) = 6"
  by (simp add: GetFileStream_def unknown_env_def ten_env_def GET_def writer_defs)

end
